theory Spec2Isabelle
  imports Complex_Main "HOL-Library.Multiset"
begin

section \<open>Data model\<close>

text \<open>
  The recommender passes tracks around as Python dictionaries and reads them with
  \<^verbatim>\<open>track.get(key, default)\<close>. A track is modelled as a record with one optional component
  per key that the functions below read or write; \<open>None\<close> means that the key is absent.
  The \<^verbatim>\<open>artists\<close> entry is a list of artist dictionaries, of which only the \<^verbatim>\<open>id\<close> entry is
  ever read, so each artist is reduced to its optional id. The nested lookups
  \<^verbatim>\<open>track.get('album', {}).get('release_date', '')\<close> and \<^verbatim>\<open>candidate.get('scores', {}).get('novelty', 0.5)\<close>
  are flattened to one optional component each: a missing outer dictionary and a missing inner
  key both lead to the default. Scores are Python floats; they are modelled as real numbers,
  so rounding, infinities and NaN are outside the model. Tracks are values here: the model
  assumes that the dictionaries of one candidate list are distinct objects.
\<close>

datatype error = IndexError | ZeroDivisionError | ValueError

record track =
  track_id :: "string option"
  artists :: "string option list option"
  popularity :: "int option"
  genres :: "string list option"
  release_date :: "string option"
  scores_novelty :: "real option"
  recommendation_score :: "real option"
  normalized_popularity :: "real option"
  popularity_bias_reduction :: "real option"
  popularity_penalty :: "real option"
  popularity_adjusted_score :: "real option"
  popularity_aware_score :: "real option"
  diversity_boost :: "real option"
  diversity_adjusted_score :: "real option"
  genre_diversity_boost :: "real option"
  temporal_diversity_boost :: "real option"
  novelty_score :: "real option"
  novelty_adjusted_score :: "real option"
  artist_novelty_boost :: "real option"
  debiased_score :: "real option"

text \<open>\<^verbatim>\<open>d.get(key, default)\<close> on an optional component.\<close>

fun dict_get :: "'a option \<Rightarrow> 'a \<Rightarrow> 'a" where
  "dict_get None d = d"
| "dict_get (Some v) d = v"

text \<open>
  \<^verbatim>\<open>track.get('artists', [{}])[0].get('id', dflt)\<close>: a missing \<^verbatim>\<open>artists\<close> key gives the
  default id, an empty list raises \<^verbatim>\<open>IndexError\<close>, otherwise the first artist decides.
\<close>

definition primary_artist_id :: "string \<Rightarrow> track \<Rightarrow> error + string" where
  "primary_artist_id dflt t =
     (case artists t of
        None \<Rightarrow> Inr dflt
      | Some [] \<Rightarrow> Inl IndexError
      | Some (a # _) \<Rightarrow> Inr (dict_get a dflt))"

definition rec_score :: "track \<Rightarrow> real" where
  "rec_score t = dict_get (recommendation_score t) 0"

definition pop_fraction :: "track \<Rightarrow> real" where
  "pop_fraction t = real_of_int (dict_get (popularity t) 50) / 100"

section \<open>Python list operations\<close>

text \<open>
  \<^verbatim>\<open>xs.sort(key=k, reverse=True)\<close> and \<^verbatim>\<open>sorted(xs, key=k, reverse=True)\<close>: a stable sort into
  descending key order (elements with equal keys keep their original order).
\<close>

definition sort_desc :: "('a \<Rightarrow> real) \<Rightarrow> 'a list \<Rightarrow> 'a list" where
  "sort_desc key xs = sort_key (\<lambda>x. - key x) xs"

text \<open>The slice \<^verbatim>\<open>xs[:k]\<close>; a negative \<open>k\<close> counts from the end.\<close>

definition py_prefix :: "'a list \<Rightarrow> int \<Rightarrow> 'a list" where
  "py_prefix xs k =
     (if 0 \<le> k then take (nat k) xs else take (nat (int (length xs) + k)) xs)"

text \<open>\<^verbatim>\<open>int(x)\<close> on a float truncates towards zero.\<close>

definition py_int :: "real \<Rightarrow> int" where
  "py_int x = (if 0 \<le> x then \<lfloor>x\<rfloor> else \<lceil>x\<rceil>)"

text \<open>
  A \<^verbatim>\<open>for\<close> loop that updates the dictionaries of a list in place and may raise: the tracks
  before the failing one have been updated, the failing one and the rest are left as they
  were. The second component is the exception, if any.
\<close>

fun for_each :: "(track \<Rightarrow> error + track) \<Rightarrow> track list \<Rightarrow> track list \<times> error option" where
  "for_each f [] = ([], None)"
| "for_each f (t # ts) =
     (case f t of
        Inl e \<Rightarrow> (t # ts, Some e)
      | Inr t' \<Rightarrow> (case for_each f ts of (ts', r) \<Rightarrow> (t' # ts', r)))"

text \<open>
  A dictionary of lists filled by \<^verbatim>\<open>d[k].append(v)\<close> (creating the key at its first use) keeps
  its keys in insertion order: an association list.
\<close>

fun group_add :: "'k \<Rightarrow> 'v \<Rightarrow> ('k \<times> 'v list) list \<Rightarrow> ('k \<times> 'v list) list" where
  "group_add a t [] = [(a, [t])]"
| "group_add a t ((b, ts) # g) =
     (if a = b then (b, ts @ [t]) # g else (b, ts) # group_add a t g)"

definition lookup_group :: "('k \<times> 'v list) list \<Rightarrow> 'k \<Rightarrow> 'v list" where
  "lookup_group g a = (case map_of g a of None \<Rightarrow> [] | Some ts \<Rightarrow> ts)"

definition set_group :: "('k \<times> 'v list) list \<Rightarrow> 'k \<Rightarrow> 'v list \<Rightarrow> ('k \<times> 'v list) list" where
  "set_group g a ts' = map (\<lambda>(b, ts). if b = a then (b, ts') else (b, ts)) g"

text \<open>The grouping loop shared by the diversity boost and the fairness allocator.\<close>

fun group_by_artist ::
  "track list \<Rightarrow> (string \<times> track list) list \<Rightarrow> error + (string \<times> track list) list" where
  "group_by_artist [] g = Inr g"
| "group_by_artist (t # ts) g =
     (case primary_artist_id ''unknown'' t of
        Inl e \<Rightarrow> Inl e
      | Inr a \<Rightarrow> group_by_artist ts (group_add a t g))"

section \<open>Popularity debiasing\<close>

text \<open>
  \<^verbatim>\<open>x ** alpha\<close> for a float base \<open>x \<ge> 0\<close>: zero to a negative power raises
  \<^verbatim>\<open>ZeroDivisionError\<close>, and \<^verbatim>\<open>0.0 ** 0\<close> is \<open>1.0\<close>. (A negative base with a fractional exponent
  gives a complex number in Python; popularity is never negative in the data model.)
\<close>

definition py_pow :: "real \<Rightarrow> real \<Rightarrow> error + real" where
  "py_pow x a =
     (if x = 0 then (if a < 0 then Inl ZeroDivisionError else if a = 0 then Inr 1 else Inr 0)
      else Inr (x powr a))"

fun normalize_all :: "real \<Rightarrow> track list \<Rightarrow> error + real list" where
  "normalize_all alpha [] = Inr []"
| "normalize_all alpha (t # ts) =
     (case py_pow (pop_fraction t) alpha of
        Inl e \<Rightarrow> Inl e
      | Inr n \<Rightarrow> (case normalize_all alpha ts of Inl e \<Rightarrow> Inl e | Inr ns \<Rightarrow> Inr (n # ns)))"

definition apply_popularity_normalization :: "real \<Rightarrow> track list \<Rightarrow> track list" where
  "apply_popularity_normalization alpha tracks =
     (case normalize_all alpha tracks of
        Inl e \<Rightarrow> tracks
      | Inr ns \<Rightarrow>
          map (\<lambda>(t, n). t\<lparr>normalized_popularity := Some n,
                              popularity_bias_reduction := Some (1 - n)\<rparr>) (zip tracks ns))"

definition penalty_of :: "real \<Rightarrow> real \<Rightarrow> real" where
  "penalty_of penalty_strength p =
     (if p > 0.8 then penalty_strength * (p - 0.8) * 5
      else if p > 0.6 then penalty_strength * (p - 0.6) * 2.5
      else 0)"

definition penalize :: "real \<Rightarrow> track \<Rightarrow> track" where
  "penalize penalty_strength t =
     (let penalty = penalty_of penalty_strength (pop_fraction t)
      in t\<lparr>popularity_penalty := Some penalty,
            popularity_adjusted_score := Some (rec_score t * (1 - penalty))\<rparr>)"

definition apply_popularity_penalty :: "track list \<Rightarrow> real \<Rightarrow> track list" where
  "apply_popularity_penalty tracks penalty_strength = map (penalize penalty_strength) tracks"

definition apply_popularity_aware_ranking :: "track list \<Rightarrow> track list" where
  "apply_popularity_aware_ranking tracks =
     map (\<lambda>t. let popularity_weight = 1 - pop_fraction t * 0.5
               in t\<lparr>popularity_aware_score := Some (rec_score t * (1 + popularity_weight * 0.3))\<rparr>)
         tracks"

section \<open>Diversity promotion\<close>

definition apply_diversity_boost :: "real \<Rightarrow> track list \<Rightarrow> track list" where
  "apply_diversity_boost diversity_weight tracks =
     (case group_by_artist tracks [] of
        Inl e \<Rightarrow> tracks
      | Inr artist_tracks \<Rightarrow>
          fst (for_each
            (\<lambda>t. case primary_artist_id ''unknown'' t of
                    Inl e \<Rightarrow> Inl e
                  | Inr a \<Rightarrow>
                      (let artist_count = length (lookup_group artist_tracks a);
                           boost = 1 / real (max artist_count 1)
                       in Inr (t\<lparr>diversity_boost := Some boost,
                                  diversity_adjusted_score :=
                                    Some (rec_score t * (1 + boost * diversity_weight))\<rparr>)))
            tracks))"

definition genre_overlap :: "string list list \<Rightarrow> nat \<Rightarrow> nat" where
  "genre_overlap track_genres i =
     length (filter (\<lambda>j. i \<noteq> j \<and> list_ex (\<lambda>g. g \<in> set (track_genres ! j)) (track_genres ! i))
               [0..<length track_genres])"

definition apply_genre_diversity :: "track list \<Rightarrow> track list" where
  "apply_genre_diversity tracks =
     (let track_genres = map (\<lambda>t. dict_get (genres t) []) tracks
      in map (\<lambda>(i, t). t\<lparr>genre_diversity_boost :=
                              Some (1 / real (max (genre_overlap track_genres i + 1) 1))\<rparr>)
           (zip [0..<length tracks] tracks))"

text \<open>
  The release year is \<^verbatim>\<open>int(release_date[:4])\<close>. Python's conversion of a string to an integer
  is taken as a parameter \<open>int_of_str\<close> (\<open>None\<close> where it raises \<^verbatim>\<open>ValueError\<close>); a date that
  is empty, absent or does not convert counts as the year 2020.
\<close>

definition release_year :: "(string \<Rightarrow> int option) \<Rightarrow> track \<Rightarrow> int" where
  "release_year int_of_str t =
     (let rd = dict_get (release_date t) [] in
      if rd \<noteq> [] then (case int_of_str (take 4 rd) of Some y \<Rightarrow> y | None \<Rightarrow> 2020)
      else 2020)"

definition temporal_boost_of :: "int \<Rightarrow> real" where
  "temporal_boost_of year =
     (let current_year = 2024; years_old = current_year - year in
      if years_old > 20 then 1.3
      else if years_old > 10 then 1.2
      else if years_old > 5 then 1.1
      else 1.0)"

definition apply_temporal_diversity :: "(string \<Rightarrow> int option) \<Rightarrow> track list \<Rightarrow> track list" where
  "apply_temporal_diversity int_of_str tracks =
     (let release_years = map (release_year int_of_str) tracks
      in map (\<lambda>(t, y). t\<lparr>temporal_diversity_boost := Some (temporal_boost_of y)\<rparr>)
           (zip tracks release_years))"

section \<open>Novelty promotion\<close>

text \<open>\<^verbatim>\<open>config.NOVELTY_BOOST\<close>.\<close>

definition NOVELTY_BOOST :: real where
  "NOVELTY_BOOST = 1.5"

definition calculate_novelty_score :: "track \<Rightarrow> string list \<Rightarrow> error + real" where
  "calculate_novelty_score track_data user_history =
     (case primary_artist_id [] track_data of
        Inl e \<Rightarrow> Inl e
      | Inr artist_id \<Rightarrow>
          (let tid = dict_get (track_id track_data) [];
               artist_novelty = (if artist_id \<notin> set user_history then 1.0 else 0.3);
               track_novelty = (if tid \<notin> set user_history then 1.0 else 0.1);
               novelty = artist_novelty * 0.7 + track_novelty * 0.3
           in Inr (novelty * NOVELTY_BOOST)))"

definition apply_novelty_boost :: "real \<Rightarrow> string list \<Rightarrow> track list \<Rightarrow> track list" where
  "apply_novelty_boost novelty_weight user_history tracks =
     fst (for_each
       (\<lambda>t. case calculate_novelty_score t user_history of
               Inl e \<Rightarrow> Inl e
             | Inr n \<Rightarrow>
                 Inr (t\<lparr>novelty_score := Some n,
                        novelty_adjusted_score := Some (rec_score t * (1 + n * novelty_weight))\<rparr>))
       tracks)"

fun count_artists :: "track list \<Rightarrow> (string \<rightharpoonup> nat) \<Rightarrow> error + (string \<rightharpoonup> nat)" where
  "count_artists [] artist_counts = Inr artist_counts"
| "count_artists (t # ts) artist_counts =
     (case primary_artist_id ''unknown'' t of
        Inl e \<Rightarrow> Inl e
      | Inr a \<Rightarrow> count_artists ts (artist_counts(a \<mapsto> dict_get (artist_counts a) 0 + 1)))"

definition apply_artist_novelty :: "track list \<Rightarrow> track list" where
  "apply_artist_novelty tracks =
     (case count_artists tracks Map.empty of
        Inl e \<Rightarrow> tracks
      | Inr artist_counts \<Rightarrow>
          fst (for_each
            (\<lambda>t. case primary_artist_id ''unknown'' t of
                    Inl e \<Rightarrow> Inl e
                  | Inr a \<Rightarrow>
                      Inr (t\<lparr>artist_novelty_boost :=
                                Some (1 / real (max (dict_get (artist_counts a) 0) 1))\<rparr>))
            tracks))"

section \<open>Fairness constraints\<close>

text \<open>
  \<^verbatim>\<open>artist_counts.get(artist_id, 0)\<close> on the dictionary of per-artist selection counts.
\<close>

definition get_count :: "(string \<rightharpoonup> nat) \<Rightarrow> string \<Rightarrow> nat" where
  "get_count artist_counts a = dict_get (artist_counts a) 0"

text \<open>
  The inner \<^verbatim>\<open>for artist_id in artist_tracks\<close> loop: \<open>min_count\<close> starts at infinity (\<open>None\<close>)
  and the artist chosen so far at \<^verbatim>\<open>None\<close>; an artist replaces the choice when its count is
  below the cap and strictly below \<open>min_count\<close>. Whether the artist still has tracks left
  is not looked at.
\<close>

fun find_artist ::
  "(string \<times> track list) list \<Rightarrow> (string \<rightharpoonup> nat) \<Rightarrow> int \<Rightarrow> nat option \<Rightarrow> string option
     \<Rightarrow> string option" where
  "find_artist [] artist_counts cap min_count selected_artist = selected_artist"
| "find_artist ((a, ts) # g) artist_counts cap min_count selected_artist =
     (let current_count = get_count artist_counts a in
      if int current_count < cap \<and>
         (case min_count of None \<Rightarrow> True | Some m \<Rightarrow> current_count < m)
      then find_artist g artist_counts cap (Some current_count) (Some a)
      else find_artist g artist_counts cap min_count selected_artist)"

text \<open>
  The \<^verbatim>\<open>while len(selected_tracks) < max_recommendations\<close> loop. When the chosen artist's list
  is empty the body changes nothing and the loop tests its condition again. The result is
  \<open>None\<close> when the loop never ends.
\<close>

partial_function (option) fairness_loop ::
  "int \<Rightarrow> int \<Rightarrow> (string \<times> track list) list \<Rightarrow> (string \<rightharpoonup> nat) \<Rightarrow> track list
     \<Rightarrow> track list option" where
  "fairness_loop max_recommendations cap artist_tracks artist_counts selected_tracks =
     (if int (length selected_tracks) < max_recommendations then
        (case find_artist artist_tracks artist_counts cap None None of
           None \<Rightarrow> Some selected_tracks
         | Some a \<Rightarrow>
             (case lookup_group artist_tracks a of
                [] \<Rightarrow>
                  fairness_loop max_recommendations cap artist_tracks artist_counts selected_tracks
              | t # rest \<Rightarrow>
                  fairness_loop max_recommendations cap (set_group artist_tracks a rest)
                    (artist_counts(a \<mapsto> get_count artist_counts a + 1)) (selected_tracks @ [t])))
      else Some selected_tracks)"

declare fairness_loop.simps [code]

text \<open>
  The body of the \<^verbatim>\<open>try\<close> block: \<open>None\<close> when the loop never ends, \<open>Some (Inl e)\<close> when an
  exception is raised (the grouping raises \<^verbatim>\<open>IndexError\<close>; an empty candidate list gives zero
  artists and \<^verbatim>\<open>max_recommendations // num_artists\<close> raises \<^verbatim>\<open>ZeroDivisionError\<close>).
\<close>

definition fairness_try :: "track list \<Rightarrow> int \<Rightarrow> (error + track list) option" where
  "fairness_try tracks max_recommendations =
     (case group_by_artist tracks [] of
        Inl e \<Rightarrow> Some (Inl e)
      | Inr artist_tracks \<Rightarrow>
          (let num_artists = length artist_tracks in
           if num_artists = 0 then Some (Inl ZeroDivisionError)
           else
             (let max_tracks_per_artist = max 1 (max_recommendations div int num_artists);
                  sorted_groups = map (\<lambda>(a, ts). (a, sort_desc rec_score ts)) artist_tracks
              in map_option Inr
                   (fairness_loop max_recommendations max_tracks_per_artist sorted_groups
                      Map.empty []))))"

text \<open>The \<^verbatim>\<open>except\<close> clause returns \<^verbatim>\<open>tracks[:max_recommendations]\<close>.\<close>

definition apply_fairness_constraints :: "track list \<Rightarrow> int \<Rightarrow> track list option" where
  "apply_fairness_constraints tracks max_recommendations =
     (case fairness_try tracks max_recommendations of
        None \<Rightarrow> None
      | Some (Inl e) \<Rightarrow> Some (py_prefix tracks max_recommendations)
      | Some (Inr selected_tracks) \<Rightarrow> Some selected_tracks)"

text \<open>
  The category quotas. \<open>quota_percentages\<close> is a dictionary from category name to fraction,
  read in insertion order.
\<close>

definition category_of :: "track \<Rightarrow> string" where
  "category_of t =
     (let p = dict_get (popularity t) 50 in
      if p > 70 then ''mainstream'' else if p < 30 then ''indie'' else ''vintage'')"

definition categorize :: "track list \<Rightarrow> (string \<times> track list) list" where
  "categorize tracks =
     [(''mainstream'', filter (\<lambda>t. category_of t = ''mainstream'') tracks),
      (''indie'', filter (\<lambda>t. category_of t = ''indie'') tracks),
      (''vintage'', filter (\<lambda>t. category_of t = ''vintage'') tracks)]"

fun quota_loop ::
  "(string \<times> real) list \<Rightarrow> (string \<times> track list) list \<Rightarrow> nat \<Rightarrow> track list \<Rightarrow> track list" where
  "quota_loop [] categorized_tracks total_needed selected_tracks = selected_tracks"
| "quota_loop ((category, percentage) # qs) categorized_tracks total_needed selected_tracks =
     (let category_tracks = sort_desc rec_score (lookup_group categorized_tracks category);
          num_needed = py_int (real total_needed * percentage)
      in quota_loop qs (set_group categorized_tracks category category_tracks) total_needed
           (selected_tracks @ py_prefix category_tracks num_needed))"

definition apply_representation_quota :: "track list \<Rightarrow> (string \<times> real) list \<Rightarrow> track list" where
  "apply_representation_quota tracks quota_percentages =
     quota_loop quota_percentages (categorize tracks) (length tracks) []"

section \<open>The debiasing pipeline\<close>

text \<open>
  The pipeline object holds the parameters of its four components; the only one that
  \<^verbatim>\<open>apply_full_debiasing\<close> writes is the user history of the novelty component.
\<close>

record pipeline =
  alpha :: real
  diversity_weight :: real
  novelty_weight :: real
  user_history :: "string list"

definition init_pipeline :: pipeline where
  "init_pipeline = \<lparr>alpha = 0.7, diversity_weight = 0.4, novelty_weight = 0.3, user_history = []\<rparr>"

text \<open>\<^verbatim>\<open>if user_history: self.novelty_promotion.set_user_history(user_history)\<close>.\<close>

definition set_history :: "pipeline \<Rightarrow> string list option \<Rightarrow> pipeline" where
  "set_history p h =
     (case h of
        None \<Rightarrow> p
      | Some [] \<Rightarrow> p
      | Some (x # xs) \<Rightarrow> p\<lparr>user_history := x # xs\<rparr>)"

text \<open>The eight enrichment stages, in the order of the source.\<close>

definition enrich :: "pipeline \<Rightarrow> (string \<Rightarrow> int option) \<Rightarrow> track list \<Rightarrow> track list" where
  "enrich p int_of_str tracks =
     (let t1 = apply_popularity_normalization (alpha p) tracks;
          t2 = apply_popularity_penalty t1 0.3;
          t3 = apply_popularity_aware_ranking t2;
          t4 = apply_diversity_boost (diversity_weight p) t3;
          t5 = apply_genre_diversity t4;
          t6 = apply_temporal_diversity int_of_str t5;
          t7 = apply_novelty_boost (novelty_weight p) (user_history p) t6
      in apply_artist_novelty t7)"

text \<open>The score combiner: the final score of a track, from the fields it carries.\<close>

definition final_score :: "track \<Rightarrow> real" where
  "final_score t =
     dict_get (popularity_adjusted_score t) (rec_score t) * 0.3 +
     dict_get (diversity_adjusted_score t) (rec_score t) * 0.3 +
     dict_get (novelty_adjusted_score t) (rec_score t) * 0.4"

definition set_debiased :: "track \<Rightarrow> track" where
  "set_debiased t = t\<lparr>debiased_score := Some (final_score t)\<rparr>"

definition debiased :: "track \<Rightarrow> real" where
  "debiased t = dict_get (debiased_score t) 0"

definition combine_scores :: "track list \<Rightarrow> track list" where
  "combine_scores tracks = sort_desc debiased (map set_debiased tracks)"

text \<open>
  \<^verbatim>\<open>apply_full_debiasing\<close> returns the new pipeline state and the list. Every stage catches
  its own exceptions, and nothing in the combiner can raise on numeric scores, so the
  \<^verbatim>\<open>except\<close> clause of the pipeline itself is never entered.
\<close>

definition apply_full_debiasing ::
  "pipeline \<Rightarrow> (string \<Rightarrow> int option) \<Rightarrow> track list \<Rightarrow> string list option
     \<Rightarrow> pipeline \<times> track list" where
  "apply_full_debiasing p int_of_str tracks h =
     (let p' = set_history p h in (p', combine_scores (enrich p' int_of_str tracks)))"

section \<open>Exploration and exploitation\<close>

text \<open>
  A feedback event, as far as \<^verbatim>\<open>update_exploration_rate\<close> reads it:
  \<^verbatim>\<open>feedback.get('is_exploration', False)\<close> and \<^verbatim>\<open>feedback.get('rating', 0.5)\<close>.
\<close>

record feedback =
  is_exploration :: "bool option"
  rating :: "real option"

record exploration_model =
  exploration_rate :: real
  exploration_history :: "track list"

text \<open>\<^verbatim>\<open>np.mean\<close>: the mean of an empty list is NaN, modelled as \<open>None\<close>.\<close>

definition np_mean :: "real list \<Rightarrow> real option" where
  "np_mean xs = (if xs = [] then None else Some (sum_list xs / real (length xs)))"

text \<open>The loop that collects the ratings of the exploration events.\<close>

fun collect_exploration :: "feedback list \<Rightarrow> real list \<Rightarrow> real list" where
  "collect_exploration [] exploration_satisfaction = exploration_satisfaction"
| "collect_exploration (f # fs) exploration_satisfaction =
     (if dict_get (is_exploration f) False
      then collect_exploration fs (exploration_satisfaction @ [dict_get (rating f) 0.5])
      else collect_exploration fs exploration_satisfaction)"

definition update_exploration_rate :: "exploration_model \<Rightarrow> feedback list \<Rightarrow> exploration_model" where
  "update_exploration_rate m user_feedback =
     (if user_feedback = [] then m
      else
        (let exploration_satisfaction = collect_exploration user_feedback [] in
         if exploration_satisfaction \<noteq> [] then
           (case np_mean exploration_satisfaction of
              None \<Rightarrow> m
            | Some avg_satisfaction \<Rightarrow>
                if avg_satisfaction > 0.7
                then m\<lparr>exploration_rate := min 0.5 (exploration_rate m + 0.05)\<rparr>
                else if avg_satisfaction < 0.3
                then m\<lparr>exploration_rate := max 0.1 (exploration_rate m - 0.05)\<rparr>
                else m)
         else m))"

definition exploration_key :: "track \<Rightarrow> real" where
  "exploration_key candidate =
     (let novelty = dict_get (scores_novelty candidate) 0.5;
          popularity_penalty = 1 - pop_fraction candidate
      in novelty * 0.7 + popularity_penalty * 0.3)"

definition select_exploration_candidates :: "track list \<Rightarrow> int \<Rightarrow> track list" where
  "select_exploration_candidates candidates num_select =
     (if int (length candidates) \<le> num_select then candidates
      else
        (let diversity_scores = map exploration_key candidates;
             scored_candidates = sort_desc snd (zip candidates diversity_scores)
         in map fst (py_prefix scored_candidates num_select)))"

text \<open>
  \<^verbatim>\<open>np.random.shuffle\<close> rearranges the list by a permutation of its positions that the random
  generator chooses; the permutation is a parameter here. A list of positions that is not
  a permutation of \<open>0, \<dots>, n - 1\<close> leaves the list as it is.
\<close>

definition shuffle :: "nat list \<Rightarrow> 'a list \<Rightarrow> 'a list" where
  "shuffle perm xs = (if sort perm = [0..<length xs] then map (\<lambda>i. xs ! i) perm else xs)"

text \<open>
  \<^verbatim>\<open>select_recommendations\<close>. On real-valued rates and numeric scores nothing in the
  \<^verbatim>\<open>try\<close> block raises, so its \<^verbatim>\<open>except\<close> clause is not entered.
\<close>

definition num_exploration_of :: "exploration_model \<Rightarrow> int \<Rightarrow> int" where
  "num_exploration_of m num_recommendations =
     py_int (real_of_int num_recommendations * exploration_rate m)"

definition exploitation_selected_of :: "exploration_model \<Rightarrow> track list \<Rightarrow> int \<Rightarrow> track list" where
  "exploitation_selected_of m exploitation_candidates num_recommendations =
     (let num_exploration = num_exploration_of m num_recommendations;
          num_exploitation = num_recommendations - num_exploration
      in py_prefix (sort_desc rec_score exploitation_candidates) num_exploitation)"

definition exploration_selected_of :: "exploration_model \<Rightarrow> track list \<Rightarrow> int \<Rightarrow> track list" where
  "exploration_selected_of m exploration_candidates num_recommendations =
     select_exploration_candidates exploration_candidates
       (num_exploration_of m num_recommendations)"

definition select_recommendations ::
  "exploration_model \<Rightarrow> nat list \<Rightarrow> track list \<Rightarrow> track list \<Rightarrow> int \<Rightarrow> track list" where
  "select_recommendations m perm exploitation_candidates exploration_candidates num_recommendations =
     (let exploitation_selected =
            exploitation_selected_of m exploitation_candidates num_recommendations;
          exploration_selected =
            exploration_selected_of m exploration_candidates num_recommendations;
          all_recommendations = exploitation_selected @ exploration_selected
      in shuffle perm all_recommendations)"

section \<open>Satisfaction tracking\<close>

text \<open>
  An entry of the satisfaction history, as \<^verbatim>\<open>update_satisfaction\<close> stores it. Timestamps
  are ISO strings; \<^verbatim>\<open>datetime.fromisoformat\<close> is a parameter that gives the time in
  microseconds, or \<open>None\<close> where it raises. The current time is a parameter too.
\<close>

record satisfaction_entry =
  timestamp :: string
  entry_rating :: real
  feedback_type :: string

record satisfaction_summary =
  avg_satisfaction :: "real option"
  satisfaction_variance :: "real option"
  total_feedback :: nat
  positive_feedback_rate :: "real option"
  negative_feedback_rate :: "real option"
  avg_satisfaction_by_type :: "(string \<times> real option) list"

text \<open>\<^verbatim>\<open>np.var\<close>: the mean of the squared deviations from the mean.\<close>

definition np_var :: "real list \<Rightarrow> real option" where
  "np_var xs =
     (case np_mean xs of
        None \<Rightarrow> None
      | Some mu \<Rightarrow> np_mean (map (\<lambda>x. (x - mu) * (x - mu)) xs))"

text \<open>
  The list comprehension \<^verbatim>\<open>[s for s in history if fromisoformat(s['timestamp']) > cutoff]\<close>;
  a timestamp that does not parse raises.
\<close>

fun recent_since ::
  "(string \<Rightarrow> int option) \<Rightarrow> int \<Rightarrow> satisfaction_entry list \<Rightarrow> error + satisfaction_entry list" where
  "recent_since fromisoformat cutoff_date [] = Inr []"
| "recent_since fromisoformat cutoff_date (s # ss) =
     (case fromisoformat (timestamp s) of
        None \<Rightarrow> Inl ValueError
      | Some ts \<Rightarrow>
          (case recent_since fromisoformat cutoff_date ss of
             Inl e \<Rightarrow> Inl e
           | Inr r \<Rightarrow> Inr (if ts > cutoff_date then s # r else r)))"

definition microseconds_per_day :: int where
  "microseconds_per_day = 86400000000"

definition window ::
  "(string \<Rightarrow> int option) \<Rightarrow> int \<Rightarrow> string \<Rightarrow> satisfaction_entry list
     \<Rightarrow> error + satisfaction_entry list" where
  "window fromisoformat now time_period satisfaction_history =
     (if time_period = ''week''
      then recent_since fromisoformat (now - 7 * microseconds_per_day) satisfaction_history
      else if time_period = ''month''
      then recent_since fromisoformat (now - 30 * microseconds_per_day) satisfaction_history
      else Inr satisfaction_history)"

text \<open>
  The two rates, as the source computes them: the mean of a list that holds the number
  \<open>1\<close> once for every rating that passes the test (and nothing for the others).
\<close>

definition positive_rate_of :: "real list \<Rightarrow> real option" where
  "positive_rate_of ratings = np_mean (map (\<lambda>r. 1) (filter (\<lambda>r. r > 0.7) ratings))"

definition negative_rate_of :: "real list \<Rightarrow> real option" where
  "negative_rate_of ratings = np_mean (map (\<lambda>r. 1) (filter (\<lambda>r. r < 0.3) ratings))"

definition group_ratings :: "satisfaction_entry list \<Rightarrow> (string \<times> real list) list" where
  "group_ratings recent_data =
     fold (\<lambda>d g. group_add (feedback_type d) (entry_rating d) g) recent_data []"

definition summarize :: "satisfaction_entry list \<Rightarrow> satisfaction_summary" where
  "summarize recent_data =
     (let ratings = map entry_rating recent_data
      in \<lparr>avg_satisfaction = np_mean ratings,
          satisfaction_variance = np_var ratings,
          total_feedback = length ratings,
          positive_feedback_rate = positive_rate_of ratings,
          negative_feedback_rate = negative_rate_of ratings,
          avg_satisfaction_by_type =
            map (\<lambda>(ty, rs). (ty, np_mean rs)) (group_ratings recent_data)\<rparr>)"

text \<open>
  \<^verbatim>\<open>get_satisfaction_summary\<close>: \<open>None\<close> is the empty dictionary that the source returns for
  an empty history, an empty window, or after an exception.
\<close>

definition get_satisfaction_summary ::
  "(string \<Rightarrow> int option) \<Rightarrow> int \<Rightarrow> satisfaction_entry list \<Rightarrow> string
     \<Rightarrow> satisfaction_summary option" where
  "get_satisfaction_summary fromisoformat now satisfaction_history time_period =
     (if satisfaction_history = [] then None
      else
        (case window fromisoformat now time_period satisfaction_history of
           Inl e \<Rightarrow> None
         | Inr recent_data \<Rightarrow> if recent_data = [] then None else Some (summarize recent_data)))"

section \<open>Sample data and auxiliary notions\<close>

text \<open>The empty dictionary, and a track with an id, one artist and a base score.\<close>

definition empty_track :: track where
  "empty_track = \<lparr>track_id = None, artists = None, popularity = None, genres = None,
     release_date = None, scores_novelty = None, recommendation_score = None,
     normalized_popularity = None, popularity_bias_reduction = None, popularity_penalty = None,
     popularity_adjusted_score = None, popularity_aware_score = None, diversity_boost = None,
     diversity_adjusted_score = None, genre_diversity_boost = None,
     temporal_diversity_boost = None, novelty_score = None, novelty_adjusted_score = None,
     artist_novelty_boost = None, debiased_score = None\<rparr>"

definition mk_track :: "string \<Rightarrow> string \<Rightarrow> real \<Rightarrow> track" where
  "mk_track i a s =
     empty_track\<lparr>track_id := Some i, artists := Some [Some a], recommendation_score := Some s\<rparr>"

text \<open>
  A state of the allocation loop in which the next iteration changes nothing: the result is
  still too short, an artist is chosen, and that artist has no track left.
\<close>

definition stuck ::
  "int \<Rightarrow> int \<Rightarrow> (string \<times> track list) list \<Rightarrow> (string \<rightharpoonup> nat) \<Rightarrow> track list \<Rightarrow> bool" where
  "stuck M cap g c sel \<longleftrightarrow>
     int (length sel) < M \<and>
     (case find_artist g c cap None None of
        None \<Rightarrow> False
      | Some a \<Rightarrow> lookup_group g a = [])"

text \<open>Sample candidate lists.\<close>

definition sample_tracks :: "track list" where
  "sample_tracks =
     [mk_track ''a'' ''X'' 0.5, mk_track ''b'' ''Y'' 0.7, mk_track ''c'' ''X'' 0.9,
      mk_track ''d'' ''Y'' 0.2]"

text \<open>Two artists, and a last track whose list of artists is empty.\<close>

definition malformed_tracks :: "track list" where
  "malformed_tracks =
     [mk_track ''a'' ''X'' 0.5, mk_track ''c'' ''X'' 0.9, mk_track ''b'' ''Y'' 0.7,
      empty_track\<lparr>track_id := Some ''e'', artists := Some []\<rparr>]"

text \<open>
  Two tracks of one artist whose pipeline scores order them the other way round than
  their base scores do.
\<close>

definition rescored_tracks :: "track list" where
  "rescored_tracks =
     [(mk_track ''a'' ''X'' 0.9)\<lparr>debiased_score := Some 0.1\<rparr>,
      (mk_track ''c'' ''X'' 0.5)\<lparr>debiased_score := Some 0.8\<rparr>]"

definition hit_track :: track where
  "hit_track = empty_track\<lparr>popularity := Some 100, recommendation_score := Some 0.9\<rparr>"

definition zero_score_hit :: track where
  "zero_score_hit = empty_track\<lparr>popularity := Some 100, recommendation_score := Some 0\<rparr>"

definition half_enriched :: "track list" where
  "half_enriched =
     [(mk_track ''a'' ''X'' 0.4)\<lparr>popularity_adjusted_score := Some 0.2\<rparr>,
      (mk_track ''b'' ''Y'' 0.5)\<lparr>novelty_adjusted_score := Some 0.7\<rparr>,
      mk_track ''c'' ''X'' 0.34]"

definition pool8 :: "track list" where
  "pool8 = map (\<lambda>i. mk_track i ''X'' 0.5)
     [''e1'', ''e2'', ''e3'', ''e4'', ''e5'', ''e6'', ''e7'', ''e8'']"

definition pool4 :: "track list" where
  "pool4 = map (\<lambda>i. mk_track i ''Y'' 0.5) [''x1'', ''x2'', ''x3'', ''x4'']"

definition model_03 :: exploration_model where
  "model_03 = \<lparr>exploration_rate = 0.3, exploration_history = []\<rparr>"

definition liked_batch :: "feedback list" where
  "liked_batch = [\<lparr>is_exploration = Some True, rating = Some 0.9\<rparr>,
                  \<lparr>is_exploration = Some False, rating = Some 0.1\<rparr>]"

definition plain_feedback :: "feedback list" where
  "plain_feedback = [\<lparr>is_exploration = Some False, rating = Some 0.9\<rparr>,
                     \<lparr>is_exploration = None, rating = Some 1\<rparr>]"

definition sample_history :: "satisfaction_entry list" where
  "sample_history =
     [\<lparr>timestamp = ''2024-01-01T10:00:00'', entry_rating = 0.9, feedback_type = ''like''\<rparr>,
      \<lparr>timestamp = ''2024-01-01T11:00:00'', entry_rating = 0.5, feedback_type = ''skip''\<rparr>]"

text \<open>Notions in which the properties are stated.\<close>

definition by_artist :: "string \<Rightarrow> track list \<Rightarrow> track list" where
  "by_artist a ts = filter (\<lambda>t. primary_artist_id ''unknown'' t = Inr a) ts"

definition num_artists_of :: "track list \<Rightarrow> nat" where
  "num_artists_of tracks = length (remdups (map (primary_artist_id ''unknown'') tracks))"

definition non_increasing :: "real list \<Rightarrow> bool" where
  "non_increasing xs = sorted_wrt (\<lambda>a b. b \<le> a) xs"

definition fraction_where :: "(real \<Rightarrow> bool) \<Rightarrow> real list \<Rightarrow> real" where
  "fraction_where P rs = real (length (filter P rs)) / real (length rs)"

text \<open>
  The adaptive rule in the words of the specification: the ratings of the events flagged
  as exploration, and the new rate as a function of their mean.
\<close>

definition spec_exploration_ratings :: "feedback list \<Rightarrow> real list" where
  "spec_exploration_ratings fb =
     map (\<lambda>f. dict_get (rating f) 0.5) (filter (\<lambda>f. dict_get (is_exploration f) False) fb)"

definition spec_adapt :: "real \<Rightarrow> feedback list \<Rightarrow> real" where
  "spec_adapt rate fb =
     (case np_mean (spec_exploration_ratings fb) of
        None \<Rightarrow> rate
      | Some mean \<Rightarrow>
          if mean > 0.7 then min 0.5 (rate + 0.05)
          else if mean < 0.3 then max 0.1 (rate - 0.05)
          else rate)"

text \<open>
  The split in the words of the specification: the two counts, and the top \<open>n\<close> of a pool
  by a key (the whole pool when it is smaller).
\<close>

definition spec_n_explore :: "real \<Rightarrow> int \<Rightarrow> nat" where
  "spec_n_explore rate N = nat \<lfloor>real_of_int N * rate\<rfloor>"

definition spec_n_exploit :: "real \<Rightarrow> int \<Rightarrow> nat" where
  "spec_n_exploit rate N = nat N - spec_n_explore rate N"

definition spec_top :: "nat \<Rightarrow> (track \<Rightarrow> real) \<Rightarrow> track list \<Rightarrow> track list" where
  "spec_top n key pool = take (min n (length pool)) (sort_desc key pool)"

text \<open>The fused score in the words of the specification.\<close>

definition spec_scored :: "track \<Rightarrow> track" where
  "spec_scored t =
     t\<lparr>debiased_score :=
         Some (0.3 * dict_get (popularity_adjusted_score t) (dict_get (recommendation_score t) 0) +
               0.3 * dict_get (diversity_adjusted_score t) (dict_get (recommendation_score t) 0) +
               0.4 * dict_get (novelty_adjusted_score t) (dict_get (recommendation_score t) 0))\<rparr>"

text \<open>Invariants of the allocation loop.\<close>

definition groups_ok :: "(string \<times> track list) list \<Rightarrow> bool" where
  "groups_ok g \<longleftrightarrow> (\<forall>a. \<forall>t \<in> set (lookup_group g a). primary_artist_id ''unknown'' t = Inr a)"

definition quota_inv ::
  "int \<Rightarrow> int \<Rightarrow> (string \<times> track list) list \<Rightarrow> (string \<rightharpoonup> nat) \<Rightarrow> track list \<Rightarrow> bool" where
  "quota_inv M cap g c sel \<longleftrightarrow>
     groups_ok g \<and>
     (\<forall>a. get_count c a = length (by_artist a sel)) \<and>
     (\<forall>a. int (get_count c a) \<le> cap) \<and>
     int (length sel) \<le> max 0 M"

definition order_inv ::
  "(string \<times> track list) list \<Rightarrow> (string \<rightharpoonup> nat) \<Rightarrow> track list \<Rightarrow> bool" where
  "order_inv g c sel \<longleftrightarrow>
     groups_ok g \<and>
     (\<forall>a. non_increasing (map rec_score (by_artist a sel @ lookup_group g a)))"

section \<open>The allocation loop that never ends\<close>

lemma fairness_loop_not_stuck:
  assumes "fairness_loop M cap g c sel = Some y"
  shows "\<not> stuck M cap g c sel"
proof (rule fairness_loop.raw_induct [where P = "\<lambda>M cap g c sel y. \<not> stuck M cap g c sel", OF _ assms])
  fix f M cap g c sel and y :: "track list"
  assume IH: "\<And>M cap g c sel y. f M cap g c sel = Some y \<Longrightarrow> \<not> stuck M cap g c sel"
    and body: "(if int (length sel) < M then
        (case find_artist g c cap None None of
           None \<Rightarrow> Some sel
         | Some a \<Rightarrow>
             (case lookup_group g a of
                [] \<Rightarrow> f M cap g c sel
              | t # rest \<Rightarrow>
                  f M cap (set_group g a rest)
                    (c(a \<mapsto> get_count c a + 1)) (sel @ [t])))
      else Some sel) = Some y"
  show "\<not> stuck M cap g c sel"
  proof
    assume st: "stuck M cap g c sel"
    then obtain a where a: "find_artist g c cap None None = Some a" "lookup_group g a = []"
      and lt: "int (length sel) < M"
      unfolding stuck_def by (auto split: option.splits)
    from body lt a have "f M cap g c sel = Some y" by simp
    from IH[OF this] st show False by blast
  qed
qed

lemma fairness_loop_stuck: "stuck M cap g c sel \<Longrightarrow> fairness_loop M cap g c sel = None"
  using fairness_loop_not_stuck by (cases "fairness_loop M cap g c sel") auto

text \<open>
  C1. The claim is that the fairness allocator terminates on every input. The loop
  chooses an artist by its count alone; once the chosen artist has no track left, the body
  appends nothing and raises no count, and the loop runs forever. One track and a target
  of two recommendations is enough: the cap is two, the single artist stays below it after
  its only track has been taken, and the call does not return.
\<close>

theorem fairness_loop_forever:
  "apply_fairness_constraints [mk_track ''a'' ''X'' 0.9] 2 = None"
proof -
  let ?t = "mk_track ''a'' ''X'' 0.9"
  have grp: "group_by_artist [?t] [] = Inr [(''X'', [?t])]"
    by (simp add: primary_artist_id_def mk_track_def)
  have "stuck 2 2 [(''X'', [])] (Map.empty(''X'' \<mapsto> 1)) [?t]"
    by (simp add: stuck_def get_count_def lookup_group_def)
  then have "fairness_loop 2 2 [(''X'', [])] (Map.empty(''X'' \<mapsto> 1)) [?t] = None"
    by (rule fairness_loop_stuck)
  then have "fairness_loop 2 2 [(''X'', [?t])] Map.empty [] = None"
    by (subst fairness_loop.simps) (simp add: get_count_def lookup_group_def set_group_def)
  then show ?thesis
    unfolding apply_fairness_constraints_def fairness_try_def grp by (simp add: sort_desc_def)
qed

text \<open>
  C8. On an empty candidate list every stage returns the empty list and raises nothing:
  the eight enrichment functions, the fairness allocator for every target count (through
  its exception handler, the division by the number of artists being a division by zero),
  the category quotas for every quota dictionary, and the full pipeline.
\<close>

theorem empty_input:
  "apply_popularity_normalization a [] = [] \<and>
   apply_popularity_penalty [] strength = [] \<and>
   apply_popularity_aware_ranking [] = [] \<and>
   apply_diversity_boost w [] = [] \<and>
   apply_genre_diversity [] = [] \<and>
   apply_temporal_diversity int_of_str [] = [] \<and>
   apply_novelty_boost nw hist [] = [] \<and>
   apply_artist_novelty [] = [] \<and>
   apply_fairness_constraints [] max_count = Some [] \<and>
   apply_representation_quota [] quota_percentages = [] \<and>
   snd (apply_full_debiasing p int_of_str [] h) = []"
proof -
  have q: "\<And>g sel. \<forall>(c, ts) \<in> set g. ts = [] \<Longrightarrow> quota_loop quota_percentages g 0 sel = sel"
  proof (induction quota_percentages)
    case Nil
    show ?case by simp
  next
    case (Cons q qs)
    obtain c pct where q: "q = (c, pct)" by (cases q)
    have lk: "lookup_group g c = []" using Cons.prems
      by (auto simp: lookup_group_def split: option.splits dest: map_of_SomeD)
    have sg: "set_group g c [] = g" using Cons.prems
      by (auto simp: set_group_def intro!: map_idI)
    show ?case using Cons.IH[OF Cons.prems]
      by (simp add: q lk sg sort_desc_def py_prefix_def py_int_def)
  qed
  have quota: "apply_representation_quota [] quota_percentages = []"
    unfolding apply_representation_quota_def by (simp add: q categorize_def)
  have stages: "enrich p' int_of_str [] = []" for p'
    by (simp add: enrich_def apply_popularity_normalization_def apply_popularity_penalty_def
        apply_popularity_aware_ranking_def apply_diversity_boost_def apply_genre_diversity_def
        apply_temporal_diversity_def apply_novelty_boost_def apply_artist_novelty_def)
  show ?thesis
    by (simp add: quota stages apply_popularity_normalization_def apply_popularity_penalty_def
        apply_popularity_aware_ranking_def apply_diversity_boost_def apply_genre_diversity_def
        apply_temporal_diversity_def apply_novelty_boost_def apply_artist_novelty_def
        apply_fairness_constraints_def fairness_try_def py_prefix_def
        apply_full_debiasing_def combine_scores_def sort_desc_def)
qed

section \<open>Facts about sorting and association lists\<close>

lemma sorted_neg_key:
  "sorted (map (\<lambda>x. - key x) xs) = sorted_wrt (\<lambda>a b. b \<le> a) (map (key :: 'a \<Rightarrow> real) xs)"
  by (simp add: sorted_wrt_map)

lemma sort_desc_sorted: "sorted_wrt (\<lambda>a b. b \<le> a) (map key (sort_desc key xs))"
  unfolding sort_desc_def sorted_neg_key[symmetric] by (rule sorted_sort_key)

lemma lookup_group_simps:
  "lookup_group [] a = []"
  "lookup_group ((b, ts) # g) a = (if a = b then ts else lookup_group g a)"
  by (simp_all add: lookup_group_def)

lemma set_group_simps:
  "set_group [] a ts' = []"
  "set_group ((b, ts) # g) a ts' = (if b = a then (b, ts') else (b, ts)) # set_group g a ts'"
  by (simp_all add: set_group_def)

lemma lookup_group_add:
  "lookup_group (group_add a t g) b = (if a = b then lookup_group g a @ [t] else lookup_group g b)"
  by (induction g) (auto simp: lookup_group_simps)

lemma keys_group_add:
  "map fst (group_add a t g) = (if a \<in> set (map fst g) then map fst g else map fst g @ [a])"
proof (induction g)
  case Nil
  show ?case by simp
next
  case (Cons p g)
  obtain b ts where p: "p = (b, ts)" by (cases p)
  show ?case using Cons by (cases "a = b") (simp_all add: p)
qed

lemma lookup_set_group:
  "lookup_group (set_group g a ts') b =
     (if b = a \<and> a \<in> set (map fst g) then ts' else lookup_group g b)"
proof (induction g)
  case Nil
  show ?case by (simp add: lookup_group_simps set_group_simps)
next
  case (Cons p g)
  obtain k ts where p: "p = (k, ts)" by (cases p)
  show ?case using Cons by (force simp: p lookup_group_simps set_group_simps)
qed

lemma keys_set_group: "map fst (set_group g a ts') = map fst g"
  by (induction g) (auto simp: set_group_simps)

lemma lookup_nonempty_key: "lookup_group g a = t # rest \<Longrightarrow> a \<in> set (map fst g)"
proof (induction g)
  case Nil
  then show ?case by (simp add: lookup_group_simps)
next
  case (Cons p g)
  obtain k ts where p: "p = (k, ts)" by (cases p)
  show ?case using Cons by (cases "a = k") (simp_all add: p lookup_group_simps)
qed

lemma lookup_map_sort:
  "lookup_group (map (\<lambda>(a, ts). (a, sort_desc key ts)) g) b = sort_desc key (lookup_group g b)"
proof (induction g)
  case Nil
  show ?case by (simp add: lookup_group_simps sort_desc_def)
next
  case (Cons p g)
  obtain k ts where p: "p = (k, ts)" by (cases p)
  show ?case using Cons by (simp add: p lookup_group_simps)
qed

lemma num_artists_pos: "tracks \<noteq> [] \<Longrightarrow> 1 \<le> num_artists_of tracks"
proof -
  assume "tracks \<noteq> []"
  then have "remdups (map (primary_artist_id ''unknown'') tracks) \<noteq> []" by simp
  then show ?thesis unfolding num_artists_of_def by (simp add: Suc_le_eq)
qed

lemma set_sort_desc: "set (sort_desc key xs) = set xs"
  by (simp add: sort_desc_def)

lemma sort_desc_mset: "mset (sort_desc key xs) = mset xs"
  by (simp add: sort_desc_def)

lemma spec_top_take: "spec_top n key pool = take n (sort_desc key pool)"
  by (simp add: spec_top_def min_def sort_desc_def)

lemma insort_key_map:
  "insort_key f (g x) (map g ys) = map g (insort_key (\<lambda>y. f (g y)) x ys)"
  by (induction ys) auto

lemma sort_key_map: "sort_key f (map g xs) = map g (sort_key (\<lambda>y. f (g y)) xs)"
  by (induction xs) (auto simp: insort_key_map)

lemma zip_map_self: "zip xs (map f xs) = map (\<lambda>x. (x, f x)) xs"
  by (induction xs) auto

lemma sort_zip_keys:
  "map fst (sort_desc snd (zip xs (map key xs))) = sort_desc key xs"
  by (simp add: sort_desc_def zip_map_self sort_key_map comp_def)

lemma shuffle_mset: "mset (shuffle perm xs) = mset xs"
proof (cases "sort perm = [0..<length xs]")
  case True
  then have "mset perm = mset [0..<length xs]" by (metis mset_sort)
  then have "mset (map (\<lambda>i. xs ! i) perm) = mset (map (\<lambda>i. xs ! i) [0..<length xs])"
    by (metis mset_map)
  then show ?thesis using True by (simp add: shuffle_def map_nth)
next
  case False
  then show ?thesis by (simp add: shuffle_def)
qed

lemma sort_desc_stable:
  "filter (\<lambda>x. key x = v) (sort_desc key xs) = filter (\<lambda>x. key x = v) xs"
  using sort_key_stable[of "\<lambda>x. - key x" "- v" xs] by (simp add: sort_desc_def)

section \<open>The fairness allocator on the runs that return\<close>

lemma group_by_artist_lookup:
  "group_by_artist ts g = Inr g' \<Longrightarrow> lookup_group g' a = lookup_group g a @ by_artist a ts"
proof (induction ts arbitrary: g)
  case Nil
  then show ?case by (simp add: by_artist_def)
next
  case (Cons t ts)
  then show ?case
    by (cases "primary_artist_id ''unknown'' t") (auto simp: by_artist_def lookup_group_add)
qed

lemma group_by_artist_keys:
  "group_by_artist ts g = Inr g' \<Longrightarrow> distinct (map fst g) \<Longrightarrow>
     distinct (map fst g') \<and>
     Inr ` set (map fst g') = Inr ` set (map fst g) \<union> set (map (primary_artist_id ''unknown'') ts)"
proof (induction ts arbitrary: g)
  case Nil
  then show ?case by simp
next
  case (Cons t ts)
  show ?case
  proof (cases "primary_artist_id ''unknown'' t")
    case (Inl e)
    with Cons.prems show ?thesis by simp
  next
    case (Inr a)
    with Cons.prems have run: "group_by_artist ts (group_add a t g) = Inr g'" by simp
    have d: "distinct (map fst (group_add a t g))"
      using Cons.prems(2) by (simp add: keys_group_add)
    from Cons.IH[OF run d] show ?thesis using Inr by (auto simp: keys_group_add)
  qed
qed

lemma group_by_artist_total:
  "\<forall>t \<in> set ts. artists t \<noteq> Some [] \<Longrightarrow> \<exists>g'. group_by_artist ts g = Inr g'"
proof (induction ts arbitrary: g)
  case Nil
  then show ?case by simp
next
  case (Cons t ts)
  from Cons.prems have "artists t \<noteq> Some []" by simp
  then have "\<exists>a. primary_artist_id ''unknown'' t = Inr a"
    by (cases "artists t") (auto simp: primary_artist_id_def split: list.splits)
  then obtain a where "primary_artist_id ''unknown'' t = Inr a" by blast
  then show ?case using Cons.IH[of "group_add a t g"] Cons.prems by simp
qed

lemma group_by_artist_length:
  assumes "group_by_artist ts [] = Inr g'"
  shows "length g' = num_artists_of ts"
proof -
  from group_by_artist_keys[OF assms] have d: "distinct (map fst g')"
    and s: "Inr ` set (map fst g') = set (map (primary_artist_id ''unknown'') ts)" by simp_all
  have "length g' = card (set (map fst g'))" using d by (metis distinct_card length_map)
  also have "\<dots> = card ((Inr :: string \<Rightarrow> error + string) ` set (map fst g'))"
    by (simp add: card_image)
  also have "\<dots> = num_artists_of ts"
    unfolding s num_artists_of_def by (simp add: length_remdups_card_conv)
  finally show ?thesis .
qed

lemma find_artist_some:
  "find_artist g c cap mc sel = Some a \<Longrightarrow>
     sel = Some a \<or> (a \<in> set (map fst g) \<and> int (get_count c a) < cap)"
proof (induction g arbitrary: mc sel)
  case Nil
  then show ?case by simp
next
  case (Cons p g)
  obtain b ts where p: "p = (b, ts)" by (cases p)
  show ?case
  proof (cases "int (get_count c b) < cap \<and> (case mc of None \<Rightarrow> True | Some m \<Rightarrow> get_count c b < m)")
    case True
    with Cons.prems p have "find_artist g c cap (Some (get_count c b)) (Some b) = Some a" by simp
    from Cons.IH[OF this] True show ?thesis by (auto simp: p)
  next
    case False
    with Cons.prems p have "find_artist g c cap mc sel = Some a" by (auto simp: Let_def)
    from Cons.IH[OF this] show ?thesis by (auto simp: p)
  qed
qed

lemma fairness_loop_invariant:
  assumes run: "fairness_loop M cap g c sel = Some r"
    and init: "I g c sel"
    and step: "\<And>g c sel a t rest.
       \<lbrakk>I g c sel; int (length sel) < M; find_artist g c cap None None = Some a;
        lookup_group g a = t # rest\<rbrakk>
       \<Longrightarrow> I (set_group g a rest) (c(a \<mapsto> get_count c a + 1)) (sel @ [t])"
  shows "\<exists>g' c'. I g' c' r"
proof -
  have "M = M \<longrightarrow> cap = cap \<longrightarrow> I g c sel \<longrightarrow> (\<exists>g' c'. I g' c' r)"
  proof (rule fairness_loop.raw_induct
      [where P = "\<lambda>M' cap' g c sel r. M' = M \<longrightarrow> cap' = cap \<longrightarrow> I g c sel \<longrightarrow> (\<exists>g' c'. I g' c' r)",
        OF _ run])
    fix f M' cap' g c sel and r :: "track list"
    assume IH: "\<And>M' cap' g c sel r. f M' cap' g c sel = Some r \<Longrightarrow>
                 M' = M \<longrightarrow> cap' = cap \<longrightarrow> I g c sel \<longrightarrow> (\<exists>g' c'. I g' c' r)"
      and body: "(if int (length sel) < M' then
          (case find_artist g c cap' None None of
             None \<Rightarrow> Some sel
           | Some a \<Rightarrow>
               (case lookup_group g a of
                  [] \<Rightarrow> f M' cap' g c sel
                | t # rest \<Rightarrow>
                    f M' cap' (set_group g a rest)
                      (c(a \<mapsto> get_count c a + 1)) (sel @ [t])))
        else Some sel) = Some r"
    show "M' = M \<longrightarrow> cap' = cap \<longrightarrow> I g c sel \<longrightarrow> (\<exists>g' c'. I g' c' r)"
    proof (intro impI)
      assume eq: "M' = M" "cap' = cap" and inv: "I g c sel"
      show "\<exists>g' c'. I g' c' r"
      proof (cases "int (length sel) < M")
        case False
        with body eq have "r = sel" by simp
        with inv show ?thesis by blast
      next
        case lt: True
        show ?thesis
        proof (cases "find_artist g c cap None None")
          case None
          with body eq lt have "r = sel" by simp
          with inv show ?thesis by blast
        next
          case (Some a)
          show ?thesis
          proof (cases "lookup_group g a")
            case Nil
            with body eq lt Some have "f M cap g c sel = Some r" by simp
            from IH[OF this] inv show ?thesis by blast
          next
            case (Cons t rest)
            with body eq lt Some
            have "f M cap (set_group g a rest) (c(a \<mapsto> get_count c a + 1)) (sel @ [t]) = Some r"
              by simp
            from IH[OF this] step[OF inv lt Some Cons] show ?thesis by blast
          qed
        qed
      qed
    qed
  qed
  with init show ?thesis by blast
qed

lemma groups_ok_set_group:
  assumes "groups_ok g" "lookup_group g a = t # rest"
  shows "groups_ok (set_group g a rest)" and "primary_artist_id ''unknown'' t = Inr a"
proof -
  show "primary_artist_id ''unknown'' t = Inr a"
    using assms unfolding groups_ok_def by (metis list.set_intros(1))
  show "groups_ok (set_group g a rest)"
    unfolding groups_ok_def
  proof (intro allI ballI)
    fix b s assume s: "s \<in> set (lookup_group (set_group g a rest) b)"
    then have "s \<in> set (lookup_group g b)"
      using assms(2) by (auto simp: lookup_set_group split: if_splits)
    then show "primary_artist_id ''unknown'' s = Inr b"
      using assms(1) unfolding groups_ok_def by blast
  qed
qed

lemma by_artist_snoc:
  "primary_artist_id ''unknown'' t = Inr a \<Longrightarrow>
     by_artist b (sel @ [t]) = (if b = a then by_artist b sel @ [t] else by_artist b sel)"
  by (auto simp: by_artist_def)

lemma quota_inv_step:
  assumes inv: "quota_inv M cap g c sel" and lt: "int (length sel) < M"
    and fa: "find_artist g c cap None None = Some a" and lk: "lookup_group g a = t # rest"
  shows "quota_inv M cap (set_group g a rest) (c(a \<mapsto> get_count c a + 1)) (sel @ [t])"
proof -
  from inv have ok: "groups_ok g" by (simp add: quota_inv_def)
  note g = groups_ok_set_group[OF ok lk]
  from find_artist_some[OF fa] have below: "int (get_count c a) < cap" by simp
  have cnt: "get_count (c(a \<mapsto> get_count c a + 1)) b =
      (if b = a then get_count c a + 1 else get_count c b)" for b
    by (simp add: get_count_def)
  show ?thesis
    unfolding quota_inv_def
  proof (intro conjI allI)
    show "groups_ok (set_group g a rest)" by (rule g(1))
    from inv have old: "get_count c b = length (by_artist b sel)" for b
      unfolding quota_inv_def by blast
    from inv have cap: "int (get_count c b) \<le> cap" for b
      unfolding quota_inv_def by blast
    show "get_count (c(a \<mapsto> get_count c a + 1)) b = length (by_artist b (sel @ [t]))" for b
      unfolding cnt by_artist_snoc[OF g(2)] using old[of b] by (cases "b = a") simp_all
    show "int (get_count (c(a \<mapsto> get_count c a + 1)) b) \<le> cap" for b
      unfolding cnt using cap[of b] below by (cases "b = a") simp_all
    show "int (length (sel @ [t])) \<le> max 0 M" using lt by simp
  qed
qed

lemma order_inv_step:
  assumes inv: "order_inv g c sel"
    and lk: "lookup_group g a = t # rest"
  shows "order_inv (set_group g a rest) (c(a \<mapsto> get_count c a + 1)) (sel @ [t])"
proof -
  from inv have ok: "groups_ok g" by (simp add: order_inv_def)
  note g = groups_ok_set_group[OF ok lk]
  have key: "a \<in> set (map fst g)" by (rule lookup_nonempty_key[OF lk])
  show ?thesis
    unfolding order_inv_def
  proof (intro conjI allI)
    show "groups_ok (set_group g a rest)" by (rule g(1))
    fix b
    have "by_artist b (sel @ [t]) @ lookup_group (set_group g a rest) b =
          by_artist b sel @ lookup_group g b"
      using key lk by (simp add: by_artist_snoc[OF g(2)] lookup_set_group)
    then show "non_increasing (map rec_score (by_artist b (sel @ [t]) @ lookup_group (set_group g a rest) b))"
      using inv by (simp add: order_inv_def)
  qed
qed

lemma fairness_normal_path:
  assumes wf: "\<forall>t \<in> set tracks. artists t \<noteq> Some []" and ne: "1 \<le> num_artists_of tracks"
    and run: "apply_fairness_constraints tracks M = Some r"
  obtains g where "group_by_artist tracks [] = Inr g"
    and "fairness_loop M (max 1 (M div int (num_artists_of tracks)))
           (map (\<lambda>(a, ts). (a, sort_desc rec_score ts)) g) Map.empty [] = Some r"
proof -
  from group_by_artist_total[OF wf] obtain g where g: "group_by_artist tracks [] = Inr g" by blast
  have len: "length g = num_artists_of tracks" by (rule group_by_artist_length[OF g])
  with ne have nz: "length g \<noteq> 0" by simp
  from run have "fairness_loop M (max 1 (M div int (num_artists_of tracks)))
           (map (\<lambda>(a, ts). (a, sort_desc rec_score ts)) g) Map.empty [] = Some r"
    unfolding apply_fairness_constraints_def fairness_try_def g using nz
    by (auto simp: Let_def len split: option.splits sum.splits)
  with g that show thesis by blast
qed

lemma groups_ok_initial:
  assumes "group_by_artist tracks [] = Inr g"
  shows "groups_ok (map (\<lambda>(a, ts). (a, sort_desc rec_score ts)) g)"
proof -
  have "lookup_group g a = by_artist a tracks" for a
    using group_by_artist_lookup[OF assms, of a] by (simp add: lookup_group_def)
  then have "set (lookup_group (map (\<lambda>(a, ts). (a, sort_desc rec_score ts)) g) a) =
      set (by_artist a tracks)" for a
    by (simp add: lookup_map_sort set_sort_desc)
  then show ?thesis
    unfolding groups_ok_def by (simp add: by_artist_def)
qed

text \<open>
  C2, as stated: for every candidate list with at least one artist and every target count
  \<open>M\<close>, the returned list holds at most \<open>max 1 (M div A)\<close> tracks of each artist and at most
  \<open>M\<close> tracks in all. Two inputs show that this does not hold as stated. For a negative
  target the loop is not entered and the empty list is returned, whose length is not below
  the target. And when a track has an empty list of artists, the grouping raises, the handler
  returns the first \<open>M\<close> candidates as they came, and these may hold two tracks of one
  artist where the cap is one.
\<close>

theorem fairness_quota_fails:
  "1 \<le> num_artists_of sample_tracks \<and>
   map_option (\<lambda>r. int (length r) \<le> - 1) (apply_fairness_constraints sample_tracks (- 1)) =
     Some False \<and>
   1 \<le> num_artists_of malformed_tracks \<and>
   map_option
     (\<lambda>r. int (length (by_artist ''X'' r)) \<le> max 1 (2 div int (num_artists_of malformed_tracks)))
     (apply_fairness_constraints malformed_tracks 2) = Some False"
proof -
  have a: "apply_fairness_constraints sample_tracks (- 1) = Some []"
    by code_simp
  have b: "apply_fairness_constraints malformed_tracks 2 = Some (take 2 malformed_tracks)"
    by code_simp
  have c: "num_artists_of sample_tracks = 2" by code_simp
  have d: "num_artists_of malformed_tracks = 3" by code_simp
  have e: "length (by_artist ''X'' (take 2 malformed_tracks)) = 2"
    by code_simp
  show ?thesis unfolding a b c d option.map e by simp
qed

text \<open>
  C2, amended: for every candidate list in which no track has an empty list of artists,
  with at least one artist, and every target count \<open>M\<close>: whenever the allocator returns a
  list, that list holds at most \<open>max 1 (M div A)\<close> tracks of each artist, \<open>A\<close> being the
  number of distinct primary artists of the candidates, and its length is at most
  \<open>max 0 M\<close>.
\<close>

theorem fairness_quota:
  assumes wf: "\<forall>t \<in> set tracks. artists t \<noteq> Some []" and ne: "1 \<le> num_artists_of tracks"
    and run: "apply_fairness_constraints tracks M = Some r"
  shows "(\<forall>a. int (length (by_artist a r)) \<le> max 1 (M div int (num_artists_of tracks))) \<and>
         int (length r) \<le> max 0 M"
proof -
  let ?cap = "max 1 (M div int (num_artists_of tracks))"
  from fairness_normal_path[OF wf ne run] obtain g where g: "group_by_artist tracks [] = Inr g"
    and loop: "fairness_loop M ?cap (map (\<lambda>(a, ts). (a, sort_desc rec_score ts)) g) Map.empty [] = Some r"
    by blast
  have init: "quota_inv M ?cap (map (\<lambda>(a, ts). (a, sort_desc rec_score ts)) g) Map.empty []"
    by (simp add: quota_inv_def groups_ok_initial[OF g] get_count_def by_artist_def)
  from fairness_loop_invariant[of M ?cap _ _ _ r "quota_inv M ?cap", OF loop init quota_inv_step]
  obtain g' c' where "quota_inv M ?cap g' c' r" by blast
  then show ?thesis by (auto simp: quota_inv_def)
qed

theorem fairness_quota_witness:
  "apply_fairness_constraints sample_tracks 4 =
     Some [mk_track ''c'' ''X'' 0.9, mk_track ''b'' ''Y'' 0.7, mk_track ''a'' ''X'' 0.5,
           mk_track ''d'' ''Y'' 0.2] \<and>
   (\<forall>a. int (length (by_artist a
        [mk_track ''c'' ''X'' 0.9, mk_track ''b'' ''Y'' 0.7, mk_track ''a'' ''X'' 0.5,
         mk_track ''d'' ''Y'' 0.2])) \<le> max 1 (4 div int (num_artists_of sample_tracks))) \<and>
   int (length [mk_track ''c'' ''X'' 0.9, mk_track ''b'' ''Y'' 0.7, mk_track ''a'' ''X'' 0.5,
                mk_track ''d'' ''Y'' 0.2]) \<le> max 0 4"
proof -
  have wf: "\<forall>t \<in> set sample_tracks. artists t \<noteq> Some []"
    by (simp add: sample_tracks_def mk_track_def empty_track_def)
  have ne: "1 \<le> num_artists_of sample_tracks" by code_simp
  have run: "apply_fairness_constraints sample_tracks 4 =
     Some [mk_track ''c'' ''X'' 0.9, mk_track ''b'' ''Y'' 0.7, mk_track ''a'' ''X'' 0.5,
           mk_track ''d'' ''Y'' 0.2]"
    by code_simp
  show ?thesis using fairness_quota [OF wf ne run] run by simp
qed

text \<open>
  C3, as stated: the tracks of each artist appear in the result in non-increasing order of
  their \<^verbatim>\<open>debiased_score\<close>. The allocator sorts each group by \<^verbatim>\<open>recommendation_score\<close> and never
  reads \<^verbatim>\<open>debiased_score\<close>: two tracks of one artist whose two scores disagree come out in
  increasing order of \<^verbatim>\<open>debiased_score\<close>. And when the grouping raises, the handler returns
  the candidates in the order they came, sorted by nothing.
\<close>

theorem fairness_group_order_fails:
  "map_option (\<lambda>r. non_increasing (map debiased (by_artist ''X'' r)))
     (apply_fairness_constraints rescored_tracks 2) = Some False \<and>
   map_option (\<lambda>r. non_increasing (map rec_score (by_artist ''X'' r)))
     (apply_fairness_constraints malformed_tracks 4) = Some False"
proof -
  have a: "apply_fairness_constraints rescored_tracks 2 = Some rescored_tracks"
    by code_simp
  have b: "apply_fairness_constraints malformed_tracks 4 = Some malformed_tracks"
    by code_simp
  have c: "non_increasing (map debiased (by_artist ''X'' rescored_tracks)) = False"
    by code_simp
  have d: "non_increasing (map rec_score (by_artist ''X'' malformed_tracks)) = False"
    by code_simp
  show ?thesis unfolding a b option.map c d by simp
qed

text \<open>
  C3, amended: each artist's group is sorted descending by \<^verbatim>\<open>recommendation_score\<close> (a
  missing score counting as 0), so for every candidate list in which no track has an empty
  list of artists, whenever the allocator returns a list, the tracks of each artist appear
  in it in non-increasing order of their \<^verbatim>\<open>recommendation_score\<close>.
\<close>

theorem fairness_group_order:
  assumes wf: "\<forall>t \<in> set tracks. artists t \<noteq> Some []"
    and run: "apply_fairness_constraints tracks M = Some r"
  shows "\<forall>a. non_increasing (map rec_score (by_artist a r))"
proof (cases "tracks = []")
  case True
  with run have "r = []"
    by (auto simp: apply_fairness_constraints_def fairness_try_def py_prefix_def split: if_splits)
  then show ?thesis by (simp add: by_artist_def non_increasing_def)
next
  case False
  let ?cap = "max 1 (M div int (num_artists_of tracks))"
  have ne: "1 \<le> num_artists_of tracks" by (rule num_artists_pos[OF False])
  from fairness_normal_path[OF wf ne run] obtain g where g: "group_by_artist tracks [] = Inr g"
    and loop: "fairness_loop M ?cap (map (\<lambda>(a, ts). (a, sort_desc rec_score ts)) g) Map.empty [] = Some r"
    by blast
  have init: "order_inv (map (\<lambda>(a, ts). (a, sort_desc rec_score ts)) g) Map.empty []"
    by (simp add: order_inv_def groups_ok_initial[OF g] by_artist_def lookup_map_sort
        non_increasing_def sort_desc_sorted)
  have "\<exists>g' c'. order_inv g' c' r"
    by (rule fairness_loop_invariant[of M ?cap _ _ _ r order_inv, OF loop init])
       (rule order_inv_step)
  then obtain g' c' where "order_inv g' c' r" by blast
  then have "non_increasing (map rec_score (by_artist a r @ lookup_group g' a))" for a
    by (simp add: order_inv_def)
  then show ?thesis by (simp add: non_increasing_def sorted_wrt_append)
qed

theorem fairness_group_order_witness:
  "apply_fairness_constraints sample_tracks 4 =
     Some [mk_track ''c'' ''X'' 0.9, mk_track ''b'' ''Y'' 0.7, mk_track ''a'' ''X'' 0.5,
           mk_track ''d'' ''Y'' 0.2] \<and>
   (\<forall>a. non_increasing (map rec_score (by_artist a
        [mk_track ''c'' ''X'' 0.9, mk_track ''b'' ''Y'' 0.7, mk_track ''a'' ''X'' 0.5,
         mk_track ''d'' ''Y'' 0.2]))) \<and>
   map rec_score (by_artist ''X''
        [mk_track ''c'' ''X'' 0.9, mk_track ''b'' ''Y'' 0.7, mk_track ''a'' ''X'' 0.5,
         mk_track ''d'' ''Y'' 0.2]) = [0.9, 0.5]"
proof -
  have wf: "\<forall>t \<in> set sample_tracks. artists t \<noteq> Some []"
    by (simp add: sample_tracks_def mk_track_def empty_track_def)
  have run: "apply_fairness_constraints sample_tracks 4 =
     Some [mk_track ''c'' ''X'' 0.9, mk_track ''b'' ''Y'' 0.7, mk_track ''a'' ''X'' 0.5,
           mk_track ''d'' ''Y'' 0.2]"
    by code_simp
  have x: "map rec_score (by_artist ''X''
        [mk_track ''c'' ''X'' 0.9, mk_track ''b'' ''Y'' 0.7, mk_track ''a'' ''X'' 0.5,
         mk_track ''d'' ''Y'' 0.2]) = [0.9, 0.5]"
    by (simp add: by_artist_def primary_artist_id_def mk_track_def empty_track_def rec_score_def)
  show ?thesis using fairness_group_order [OF wf run] run x by simp
qed

section \<open>The score combiner\<close>

lemma set_debiased_spec: "set_debiased t = spec_scored t"
  by (simp add: set_debiased_def spec_scored_def final_score_def rec_score_def algebra_simps)

text \<open>
  C4. For every candidate list the combiner gives each track the score
  \<open>0.3 * popularity_adjusted_score + 0.3 * diversity_adjusted_score + 0.4 * novelty_adjusted_score\<close>,
  the base score standing in for each component that is missing, and returns the tracks
  so scored (the same tracks, as a multiset) in non-increasing order of that score, tracks
  of equal score in the order in which they came. The pipeline returns what the combiner
  makes of the enriched candidates.
\<close>

theorem score_combiner:
  "mset (combine_scores tracks) = mset (map spec_scored tracks) \<and>
   sorted_wrt (\<lambda>a b. b \<le> a) (map debiased (combine_scores tracks)) \<and>
   (\<forall>v. filter (\<lambda>t. debiased t = v) (combine_scores tracks) =
        filter (\<lambda>t. debiased t = v) (map spec_scored tracks)) \<and>
   snd (apply_full_debiasing p int_of_str tracks h) =
     combine_scores (enrich (set_history p h) int_of_str tracks)"
proof -
  have m: "map set_debiased tracks = map spec_scored tracks"
    by (simp add: set_debiased_spec)
  show ?thesis
    unfolding combine_scores_def m
    by (simp add: sort_desc_mset sort_desc_sorted sort_desc_stable apply_full_debiasing_def
        combine_scores_def m Let_def)
qed

theorem score_combiner_witness:
  "map track_id (combine_scores half_enriched) = [Some ''b'', Some ''a'', Some ''c''] \<and>
   map debiased (combine_scores half_enriched) = [0.58, 0.34, 0.34] \<and>
   mset (combine_scores half_enriched) = mset (map spec_scored half_enriched) \<and>
   sorted_wrt (\<lambda>a b. b \<le> a) (map debiased (combine_scores half_enriched)) \<and>
   (\<forall>v. filter (\<lambda>t. debiased t = v) (combine_scores half_enriched) =
        filter (\<lambda>t. debiased t = v) (map spec_scored half_enriched))"
proof -
  have ids: "map track_id (combine_scores half_enriched) = [Some ''b'', Some ''a'', Some ''c'']"
    by code_simp
  have scores: "map debiased (combine_scores half_enriched) = [0.58, 0.34, 0.34]"
    by code_simp
  show ?thesis
    using score_combiner [of half_enriched init_pipeline "\<lambda>s. None" None] ids scores by simp
qed

section \<open>Exploration and exploitation: the adaptive rate and the split\<close>

lemma collect_exploration_spec:
  "collect_exploration fb acc = acc @ spec_exploration_ratings fb"
  by (induction fb arbitrary: acc) (simp_all add: spec_exploration_ratings_def)

lemma update_rate_spec:
  "update_exploration_rate m fb = m\<lparr>exploration_rate := spec_adapt (exploration_rate m) fb\<rparr>"
proof (cases "fb = []")
  case True
  then show ?thesis
    by (simp add: update_exploration_rate_def spec_adapt_def spec_exploration_ratings_def np_mean_def)
next
  case False
  then show ?thesis
    by (simp add: update_exploration_rate_def spec_adapt_def collect_exploration_spec np_mean_def Let_def)
qed

lemma spec_adapt_range:
  "0.1 \<le> r \<Longrightarrow> r \<le> 0.5 \<Longrightarrow> 0.1 \<le> spec_adapt r fb \<and> spec_adapt r fb \<le> 0.5"
  by (auto simp: spec_adapt_def min_def max_def split: option.splits)

lemma update_rate_range:
  "0.1 \<le> exploration_rate m \<Longrightarrow> exploration_rate m \<le> 0.5 \<Longrightarrow>
   0.1 \<le> exploration_rate (update_exploration_rate m fb) \<and>
   exploration_rate (update_exploration_rate m fb) \<le> 0.5"
  using spec_adapt_range by (simp add: update_rate_spec)

lemma foldl_update_range:
  "0.1 \<le> exploration_rate m \<Longrightarrow> exploration_rate m \<le> 0.5 \<Longrightarrow>
   0.1 \<le> exploration_rate (foldl update_exploration_rate m fbs) \<and>
   exploration_rate (foldl update_exploration_rate m fbs) \<le> 0.5"
proof (induction fbs arbitrary: m)
  case Nil
  then show ?case by simp
next
  case (Cons fb fbs)
  from update_rate_range[OF Cons.prems, of fb] Cons.IH[of "update_exploration_rate m fb"]
  show ?case by simp
qed

lemma liked_step:
  "np_mean (spec_exploration_ratings fb) = Some 0.9 \<Longrightarrow>
   exploration_rate (update_exploration_rate m fb) = min 0.5 (exploration_rate m + 0.05)"
  by (simp add: update_rate_spec spec_adapt_def)

lemma length_five: "length xs = 5 \<Longrightarrow> \<exists>a b c d e. xs = [a, b, c, d, e]"
  by (auto simp: eval_nat_numeral length_Suc_conv)

text \<open>
  C5. The update follows the rule of the specification: with \<open>m\<close> the mean rating of the
  events flagged as exploration, the rate becomes \<open>min 0.5 (rate + 0.05)\<close> when \<open>m > 0.7\<close>,
  \<open>max 0.1 (rate - 0.05)\<close> when \<open>m < 0.3\<close>, and stays as it is otherwise (also when there
  is no such event); nothing else of the selector changes, and an empty batch changes
  nothing. From the rate 0.3, one batch of mean 0.9 gives 0.35 and five such batches give
  0.5, the rate never exceeding 0.5 on the way; a rate in \<open>[0.1, 0.5]\<close> stays there.
\<close>

theorem adaptive_rate_rule:
  "exploration_rate (update_exploration_rate m fb) = spec_adapt (exploration_rate m) fb \<and>
   exploration_history (update_exploration_rate m fb) = exploration_history m \<and>
   update_exploration_rate m [] = m \<and>
   (exploration_rate m = 0.3 \<and> np_mean (spec_exploration_ratings fb) = Some 0.9 \<longrightarrow>
      exploration_rate (update_exploration_rate m fb) = 0.35) \<and>
   (exploration_rate m = 0.3 \<and> length fbs = 5 \<and>
    (\<forall>b \<in> set fbs. np_mean (spec_exploration_ratings b) = Some 0.9) \<longrightarrow>
      exploration_rate (foldl update_exploration_rate m fbs) = 0.5 \<and>
      (\<forall>k. exploration_rate (foldl update_exploration_rate m (take k fbs)) \<le> 0.5)) \<and>
   (0.1 \<le> exploration_rate m \<and> exploration_rate m \<le> 0.5 \<longrightarrow>
      0.1 \<le> exploration_rate (update_exploration_rate m fb) \<and>
      exploration_rate (update_exploration_rate m fb) \<le> 0.5)"
proof -
  have one: "exploration_rate (update_exploration_rate m fb) = 0.35"
    if "exploration_rate m = 0.3" "np_mean (spec_exploration_ratings fb) = Some 0.9"
    using liked_step[OF that(2), of m] that(1) by simp
  have five: "exploration_rate (foldl update_exploration_rate m fbs) = 0.5 \<and>
      (\<forall>k. exploration_rate (foldl update_exploration_rate m (take k fbs)) \<le> 0.5)"
    if r: "exploration_rate m = 0.3" and l: "length fbs = 5"
      and a: "\<forall>b \<in> set fbs. np_mean (spec_exploration_ratings b) = Some 0.9"
  proof
    from length_five[OF l] obtain b1 b2 b3 b4 b5 where fbs: "fbs = [b1, b2, b3, b4, b5]" by blast
    from a fbs have means: "np_mean (spec_exploration_ratings b1) = Some 0.9"
      "np_mean (spec_exploration_ratings b2) = Some 0.9"
      "np_mean (spec_exploration_ratings b3) = Some 0.9"
      "np_mean (spec_exploration_ratings b4) = Some 0.9"
      "np_mean (spec_exploration_ratings b5) = Some 0.9" by simp_all
    show "exploration_rate (foldl update_exploration_rate m fbs) = 0.5"
      by (simp add: fbs liked_step means r)
    show "\<forall>k. exploration_rate (foldl update_exploration_rate m (take k fbs)) \<le> 0.5"
      using foldl_update_range[of m] r by simp
  qed
  have c1: "exploration_rate (update_exploration_rate m fb) = spec_adapt (exploration_rate m) fb"
    by (simp add: update_rate_spec)
  have c2: "exploration_history (update_exploration_rate m fb) = exploration_history m"
    by (simp add: update_rate_spec)
  have c3: "update_exploration_rate m [] = m"
    by (simp add: update_exploration_rate_def)
  show ?thesis
    using c1 c2 c3 one five update_rate_range[of m fb] by blast
qed

theorem adaptive_rate_rule_witness:
  "exploration_rate (update_exploration_rate model_03 liked_batch) = 0.35 \<and>
   exploration_rate (foldl update_exploration_rate model_03 (replicate 5 liked_batch)) = 0.5 \<and>
   (\<forall>k. exploration_rate (foldl update_exploration_rate model_03 (take k (replicate 5 liked_batch))) \<le> 0.5) \<and>
   0.1 \<le> exploration_rate (update_exploration_rate model_03 liked_batch) \<and>
   exploration_rate (update_exploration_rate model_03 liked_batch) \<le> 0.5"
proof -
  have r: "exploration_rate model_03 = 0.3" by (simp add: model_03_def)
  have mean: "np_mean (spec_exploration_ratings liked_batch) = Some 0.9"
    by (simp add: liked_batch_def spec_exploration_ratings_def np_mean_def)
  have all: "\<forall>b \<in> set (replicate 5 liked_batch). np_mean (spec_exploration_ratings b) = Some 0.9"
    using mean by simp
  have rg: "0.1 \<le> exploration_rate model_03 \<and> exploration_rate model_03 \<le> 0.5" by (simp add: r)
  show ?thesis
    using adaptive_rate_rule [of model_03 liked_batch "replicate 5 liked_batch"] r mean all rg
    by simp
qed

lemma collect_exploration_none:
  "\<forall>f \<in> set fb. \<not> dict_get (is_exploration f) False \<Longrightarrow> collect_exploration fb acc = acc"
  by (induction fb arbitrary: acc) auto

text \<open>
  C10. Only the events flagged as exploration count: a non-empty batch in which no event
  has \<^verbatim>\<open>is_exploration\<close> true leaves the rate and the rest of the selector state as they
  were.
\<close>

theorem no_exploration_events_no_change:
  assumes "user_feedback \<noteq> []"
    and "\<forall>f \<in> set user_feedback. is_exploration f \<noteq> Some True"
  shows "update_exploration_rate m user_feedback = m"
proof -
  have "\<forall>f \<in> set user_feedback. \<not> dict_get (is_exploration f) False"
  proof
    fix f assume "f \<in> set user_feedback"
    with assms(2) have "is_exploration f \<noteq> Some True" by blast
    then show "\<not> dict_get (is_exploration f) False" by (cases "is_exploration f") auto
  qed
  then have "collect_exploration user_feedback [] = []" by (rule collect_exploration_none)
  then show ?thesis by (simp add: update_exploration_rate_def)
qed

theorem no_exploration_events_no_change_witness:
  "plain_feedback \<noteq> [] \<and> list_all (\<lambda>f. is_exploration f \<noteq> Some True) plain_feedback \<and>
   update_exploration_rate model_03 plain_feedback = model_03"
proof -
  have a: "plain_feedback \<noteq> []" by (simp add: plain_feedback_def)
  have b: "\<forall>f \<in> set plain_feedback. is_exploration f \<noteq> Some True"
    by (simp add: plain_feedback_def)
  show ?thesis
    using a b no_exploration_events_no_change [OF a b, of model_03] by (simp add: list_all_iff)
qed

lemma select_exploration_spec:
  assumes "0 \<le> k"
  shows "mset (select_exploration_candidates xp k) = mset (spec_top (nat k) exploration_key xp)"
proof (cases "int (length xp) \<le> k")
  case True
  then have "min (nat k) (length xp) = length xp" by simp
  then show ?thesis using True
    by (simp add: select_exploration_candidates_def spec_top_def sort_desc_mset sort_desc_def)
next
  case False
  then have "min (nat k) (length xp) = nat k" by simp
  then show ?thesis using False assms
    by (simp add: select_exploration_candidates_def spec_top_def py_prefix_def take_map[symmetric]
        sort_zip_keys Let_def)
qed

lemma counts:
  assumes "0 \<le> N" "0 \<le> r" "r \<le> 1"
  shows "py_int (real_of_int N * r) = \<lfloor>real_of_int N * r\<rfloor>"
    and "0 \<le> \<lfloor>real_of_int N * r\<rfloor>" and "\<lfloor>real_of_int N * r\<rfloor> \<le> N"
proof -
  have nn: "0 \<le> real_of_int N * r" using assms by simp
  then show "py_int (real_of_int N * r) = \<lfloor>real_of_int N * r\<rfloor>" by (simp add: py_int_def)
  from nn show "0 \<le> \<lfloor>real_of_int N * r\<rfloor>" by simp
  have "real_of_int N * r \<le> real_of_int N * 1"
    using assms by (intro mult_left_mono) simp_all
  then have "\<lfloor>real_of_int N * r\<rfloor> \<le> \<lfloor>real_of_int N\<rfloor>" by (intro floor_mono) simp
  then show "\<lfloor>real_of_int N * r\<rfloor> \<le> N" by simp
qed

text \<open>
  C6, as stated, for every target count \<open>N\<close>: the number of exploration slots is the floor
  of \<open>N * exploration_rate\<close>. The source converts with \<^verbatim>\<open>int\<close>, which truncates towards zero,
  so for \<open>N = -1\<close> and the rate 0.3 it takes 0 exploration slots where the floor is \<open>-1\<close>;
  the slice by the negative exploitation count then drops the last candidate of the sorted
  pool instead of taking none.
\<close>

theorem negative_count_truncates:
  "num_exploration_of model_03 (- 1) = 0 \<and>
   \<lfloor>real_of_int (- 1) * exploration_rate model_03\<rfloor> = - 1 \<and>
   select_recommendations model_03 [] [mk_track ''a'' ''X'' 0.9, mk_track ''b'' ''Y'' 0.7] [] (- 1) =
     [mk_track ''a'' ''X'' 0.9]"
proof -
  have "\<lceil>- (3::real) / 10\<rceil> = 0" by (simp add: ceiling_eq_iff)
  moreover have "\<lfloor>- (3::real) / 10\<rfloor> = - 1" by (simp add: floor_eq_iff)
  ultimately show ?thesis
  by (simp add: num_exploration_of_def model_03_def py_int_def select_recommendations_def
      exploitation_selected_of_def exploration_selected_of_def select_exploration_candidates_def
      sort_desc_def py_prefix_def shuffle_def mk_track_def empty_track_def rec_score_def)
qed

text \<open>
  C6, amended: for every target count \<open>N \<ge> 0\<close> and every exploration rate in \<open>[0, 1]\<close>: the
  number of exploration slots is the floor of \<open>N * exploration_rate\<close> and the number of
  exploitation slots is \<open>N\<close> minus that; the exploitation subset is the top
  \<open>min n_exploit (pool size)\<close> of the exploitation pool by recommendation score, the
  exploration subset is, as a multiset, the top \<open>min n_explore (pool size)\<close> of the
  exploration pool by \<open>0.7 * novelty + 0.3 * (1 - popularity / 100)\<close>; a pool that is not
  larger than its count is returned whole; and the returned list is a rearrangement of the
  two subsets together. For \<open>N = 10\<close> and the rate 0.3 the counts are 3 and 7.
\<close>

theorem exploration_split:
  assumes "0 \<le> N" and "0 \<le> exploration_rate m" and "exploration_rate m \<le> 1"
  shows "num_exploration_of m N = \<lfloor>real_of_int N * exploration_rate m\<rfloor> \<and>
         int (spec_n_explore (exploration_rate m) N) = num_exploration_of m N \<and>
         int (spec_n_exploit (exploration_rate m) N) = N - num_exploration_of m N \<and>
         exploitation_selected_of m ep N =
           spec_top (spec_n_exploit (exploration_rate m) N) rec_score ep \<and>
         mset (exploration_selected_of m xp N) =
           mset (spec_top (spec_n_explore (exploration_rate m) N) exploration_key xp) \<and>
         (if length ep \<le> spec_n_exploit (exploration_rate m) N
          then mset (exploitation_selected_of m ep N) = mset ep
          else length (exploitation_selected_of m ep N) = spec_n_exploit (exploration_rate m) N) \<and>
         (if length xp \<le> spec_n_explore (exploration_rate m) N
          then exploration_selected_of m xp N = xp
          else length (exploration_selected_of m xp N) = spec_n_explore (exploration_rate m) N) \<and>
         mset (select_recommendations m perm ep xp N) =
           mset (spec_top (spec_n_exploit (exploration_rate m) N) rec_score ep) +
           mset (spec_top (spec_n_explore (exploration_rate m) N) exploration_key xp) \<and>
         (if N = 10 \<and> exploration_rate m = 0.3
          then spec_n_explore (exploration_rate m) N = 3 \<and>
               spec_n_exploit (exploration_rate m) N = 7
          else True)"
proof -
  let ?r = "exploration_rate m"
  note c = counts[OF assms]
  have ne: "num_exploration_of m N = \<lfloor>real_of_int N * ?r\<rfloor>"
    by (simp add: num_exploration_of_def c(1))
  have e1: "int (spec_n_explore ?r N) = num_exploration_of m N"
    using c(2) by (simp add: spec_n_explore_def ne)
  have e2: "int (spec_n_exploit ?r N) = N - num_exploration_of m N"
    using c(2,3) assms(1) by (simp add: spec_n_exploit_def spec_n_explore_def ne)
  have ge: "0 \<le> N - num_exploration_of m N" using c(3) by (simp add: ne)
  have n2: "nat (N - num_exploration_of m N) = spec_n_exploit ?r N" using e2 by linarith
  have n1: "nat (num_exploration_of m N) = spec_n_explore ?r N" using e1 by linarith
  have x1: "exploitation_selected_of m ep N = spec_top (spec_n_exploit ?r N) rec_score ep"
    using ge by (simp add: exploitation_selected_of_def py_prefix_def spec_top_take n2 Let_def)
  have ge1: "0 \<le> num_exploration_of m N" using c(2) by (simp add: ne)
  have x2: "mset (exploration_selected_of m xp N) =
           mset (spec_top (spec_n_explore ?r N) exploration_key xp)"
    using select_exploration_spec[OF ge1, of xp] by (simp add: exploration_selected_of_def n1)
  have w1: "if length ep \<le> spec_n_exploit ?r N
          then mset (exploitation_selected_of m ep N) = mset ep
          else length (exploitation_selected_of m ep N) = spec_n_exploit ?r N"
    by (simp add: x1 spec_top_def sort_desc_mset sort_desc_def)
  have w2: "if length xp \<le> spec_n_explore ?r N
          then exploration_selected_of m xp N = xp
          else length (exploration_selected_of m xp N) = spec_n_explore ?r N"
  proof (cases "length xp \<le> spec_n_explore ?r N")
    case True
    then have "int (length xp) \<le> num_exploration_of m N" using e1 by linarith
    then show ?thesis using True
      by (simp add: exploration_selected_of_def select_exploration_candidates_def)
  next
    case False
    then have "\<not> int (length xp) \<le> num_exploration_of m N" using e1 by linarith
    then show ?thesis using False ge1
      by (simp add: exploration_selected_of_def select_exploration_candidates_def py_prefix_def n1
          sort_desc_def Let_def)
  qed
  have all: "mset (select_recommendations m perm ep xp N) =
           mset (spec_top (spec_n_exploit ?r N) rec_score ep) +
           mset (spec_top (spec_n_explore ?r N) exploration_key xp)"
    by (simp add: select_recommendations_def shuffle_mset x1 x2 Let_def)
  have ten: "if N = 10 \<and> ?r = 0.3
          then spec_n_explore ?r N = 3 \<and> spec_n_exploit ?r N = 7 else True"
  proof (cases "N = 10 \<and> ?r = 0.3")
    case True
    then have "real_of_int N * ?r = 3" by simp
    then have f: "\<lfloor>real_of_int N * ?r\<rfloor> = 3" by simp
    have "nat N = 10" using True by simp
    then show ?thesis using True unfolding spec_n_exploit_def spec_n_explore_def f by simp
  next
    case False
    then show ?thesis by auto
  qed
  show ?thesis using ne e1 e2 x1 x2 w1 w2 all ten by blast
qed

theorem exploration_split_witness:
  "spec_n_explore (exploration_rate model_03) 10 = 3 \<and>
   spec_n_exploit (exploration_rate model_03) 10 = 7 \<and>
   length (exploitation_selected_of model_03 pool8 10) = 7 \<and>
   length (exploration_selected_of model_03 pool4 10) = 3 \<and>
   size (mset (select_recommendations model_03 [] pool8 pool4 10)) = 10"
proof -
  have r: "exploration_rate model_03 = 0.3" by (simp add: model_03_def)
  have h: "(0::int) \<le> 10" "0 \<le> exploration_rate model_03" "exploration_rate model_03 \<le> 1"
    by (simp_all add: r)
  have n: "spec_n_explore 0.3 10 = 3" "spec_n_exploit 0.3 10 = 7"
    by (simp_all add: spec_n_explore_def spec_n_exploit_def)
  have l: "length pool8 = 8" "length pool4 = 4" by (simp_all add: pool8_def pool4_def)
  have s: "length (spec_top 7 rec_score pool8) = 7"
    "length (spec_top 3 exploration_key pool4) = 3"
    by (simp_all add: spec_top_def l sort_desc_def)
  show ?thesis
    using exploration_split [OF h, of pool8 pool4 "[]"] by (simp add: r n l s)
qed

section \<open>Satisfaction rates and the popularity penalty\<close>

text \<open>
  C7. The claim is that the positive and the negative feedback rate are the fractions of
  the ratings above 0.7 and below 0.3. The source takes the mean of a list that holds a
  \<open>1\<close> for every rating that passes the test and nothing for the others: the mean is 1 when
  some rating passes and NaN when none does. On the ratings 0.9 and 0.5 the positive rate
  comes out as 1 where the fraction is one half, and the negative rate as NaN where the
  fraction is 0.
\<close>

theorem feedback_rates_are_not_fractions:
  "map_option positive_feedback_rate (get_satisfaction_summary fromisoformat now sample_history ''all'') = Some (Some 1) \<and>
   fraction_where (\<lambda>r. r > 0.7) (map entry_rating sample_history) = 1 / 2 \<and>
   map_option negative_feedback_rate (get_satisfaction_summary fromisoformat now sample_history ''all'') = Some None \<and>
   fraction_where (\<lambda>r. r < 0.3) (map entry_rating sample_history) = 0"
  by (simp add: get_satisfaction_summary_def window_def sample_history_def summarize_def
      positive_rate_of_def negative_rate_of_def np_mean_def fraction_where_def)

text \<open>
  C9, as stated: for every track of popularity 100 and every strength above 0, the adjusted
  score is strictly below the base score. The adjusted score is the base score times
  \<open>1 - penalty\<close>, so a base score of 0 is left at 0.
\<close>

theorem zero_score_not_lowered:
  "popularity zero_score_hit = Some 100 \<and> (0::real) < 0.3 \<and>
   map popularity_adjusted_score (apply_popularity_penalty [zero_score_hit] 0.3) = [Some 0] \<and>
   rec_score zero_score_hit = 0 \<and>
   \<not> dict_get (popularity_adjusted_score (penalize 0.3 zero_score_hit)) 0 < rec_score zero_score_hit"
  by (simp add: zero_score_hit_def empty_track_def apply_popularity_penalty_def penalize_def
      penalty_of_def pop_fraction_def rec_score_def)

text \<open>
  C9, amended: for every track of popularity 100 in the candidate list and every strength
  above 0, the third tier applies (\<open>p = 1 > 0.8\<close>, the penalty is
  \<open>strength * (p - 0.8) * 5 = strength\<close>) and the adjusted score is the base score times
  \<open>1 - strength\<close>; it is strictly below the base score when the base score is positive.
\<close>

theorem popularity_100_third_tier:
  assumes "i < length tracks" and "popularity (tracks ! i) = Some 100" and "0 < strength"
  shows "pop_fraction (tracks ! i) = 1 \<and> pop_fraction (tracks ! i) > 0.8 \<and>
         penalty_of strength (pop_fraction (tracks ! i)) =
           strength * (pop_fraction (tracks ! i) - 0.8) * 5 \<and>
         apply_popularity_penalty tracks strength ! i =
           (tracks ! i)\<lparr>popularity_penalty := Some strength,
              popularity_adjusted_score := Some (rec_score (tracks ! i) * (1 - strength))\<rparr> \<and>
         (0 < rec_score (tracks ! i) \<longrightarrow>
            rec_score (tracks ! i) * (1 - strength) < rec_score (tracks ! i))"
proof -
  let ?t = "tracks ! i"
  have p: "pop_fraction ?t = 1" using assms(2) by (simp add: pop_fraction_def)
  have pen: "penalty_of strength 1 = strength" by (simp add: penalty_of_def)
  have lt: "rec_score ?t * (1 - strength) < rec_score ?t" if "0 < rec_score ?t"
  proof -
    have "rec_score ?t * strength > 0" using assms(3) that by simp
    then show ?thesis by (simp add: algebra_simps)
  qed
  have at: "apply_popularity_penalty tracks strength ! i = penalize strength ?t"
    using assms(1) by (simp add: apply_popularity_penalty_def)
  have upd: "penalize strength ?t =
      ?t\<lparr>popularity_penalty := Some strength,
         popularity_adjusted_score := Some (rec_score ?t * (1 - strength))\<rparr>"
    by (simp add: penalize_def p pen)
  have tier: "penalty_of strength (pop_fraction ?t) = strength * (pop_fraction ?t - 0.8) * 5"
    by (simp add: p penalty_of_def)
  have c1: "pop_fraction ?t = 1 \<and> pop_fraction ?t > 0.8" by (simp add: p)
  show ?thesis using c1 tier at upd lt by simp
qed

theorem popularity_100_third_tier_witness:
  "apply_popularity_penalty [hit_track] 0.3 ! 0 =
     hit_track\<lparr>popularity_penalty := Some 0.3,
               popularity_adjusted_score := Some (rec_score hit_track * (1 - 0.3))\<rparr> \<and>
   rec_score hit_track = 0.9 \<and>
   rec_score hit_track * (1 - 0.3) < rec_score hit_track"
proof -
  have a: "popularity ([hit_track] ! 0) = Some 100" by (simp add: hit_track_def empty_track_def)
  have b: "(0::real) < 0.3" by simp
  have r: "rec_score hit_track = 0.9" by (simp add: hit_track_def empty_track_def rec_score_def)
  have l: "0 < length [hit_track]" by simp
  show ?thesis using popularity_100_third_tier [OF l a b] r by simp
qed

end
